theory Spec2Isabelle
  imports Main "HOL-Library.Option_ord"
begin

section \<open>Identifiers\<close>

text \<open>
  The document store names every record by a \<^verbatim>\<open>bson.ObjectId\<close>, a 12-byte value whose
  string form is 24 lowercase hexadecimal digits. An identifier is modelled by the natural
  number its bytes spell; \<open>str_oid\<close> is Python's \<^verbatim>\<open>str(oid)\<close> and \<open>ObjectId\<close> is the
  constructor \<^verbatim>\<open>ObjectId(id_str)\<close> applied to a string, which raises \<^verbatim>\<open>InvalidId\<close>
  (here: \<open>None\<close>) unless the string has exactly 24 hexadecimal characters.
\<close>

type_synonym oid = nat

definition hex_char :: "nat \<Rightarrow> char" where
  "hex_char d = ''0123456789abcdef'' ! d"

definition hex_val :: "char \<Rightarrow> nat option" where
  "hex_val c =
     (if c \<in> set ''0123456789'' then Some (of_char c - 48)
      else if c \<in> set ''abcdef'' then Some (of_char c - 87)
      else if c \<in> set ''ABCDEF'' then Some (of_char c - 55)
      else None)"

function hex_of_nat :: "nat \<Rightarrow> string" where
  "hex_of_nat n =
     (if n < 16 then [hex_char n] else hex_of_nat (n div 16) @ [hex_char (n mod 16)])"
  by pat_completeness auto
termination
  by (relation "measure id") auto

declare hex_of_nat.simps [simp del]

definition str_oid :: "oid \<Rightarrow> string" where
  "str_oid n = replicate (24 - length (hex_of_nat n)) CHR ''0'' @ hex_of_nat n"

fun hex_parse :: "nat \<Rightarrow> string \<Rightarrow> nat option" where
  "hex_parse acc [] = Some acc"
| "hex_parse acc (c # cs) =
     (case hex_val c of None \<Rightarrow> None | Some d \<Rightarrow> hex_parse (16 * acc + d) cs)"

definition ObjectId :: "string \<Rightarrow> oid option" where
  "ObjectId s = (if length s = 24 then hex_parse 0 s else None)"

section \<open>Errors\<close>

text \<open>
  \<open>HTTPException\<close> is the exception the handlers raise themselves (status code and
  detail). \<open>RequestValidationError\<close> is the rejection of a request body that does not fit
  the handler's declared schema, with the locations of the offending fields.
  \<open>ValidationError\<close> is the same failure raised by a model constructor called inside a
  handler, where nothing catches it.
\<close>

datatype loc_item = Fld string | Idx nat

type_synonym loc = "loc_item list"

datatype error =
    HTTPException nat string
  | RequestValidationError "loc list"
  | ValidationError "loc list"

section \<open>Schemas (schemas.py)\<close>

text \<open>
  Each model has a record of its validated instances and a record of the raw input it is
  built from, in which every field may be absent (\<open>None\<close>). A datetime is an integer
  instant. The checks are those the model declares: a field marked required (\<^verbatim>\<open>...\<close> or
  no default) must be present, a \<^verbatim>\<open>Literal\<close> field must hold one of the listed strings,
  a field declared with \<^verbatim>\<open>ge=0\<close> must not be negative, and an absent field with a
  default takes the default. A validator returns the locations of all offending fields,
  in declaration order, or the instance.
\<close>

definition statuses :: "string list" where
  "statuses = [''running'', ''passed'', ''failed'', ''skipped'', ''blocked'']"

definition levels :: "string list" where
  "levels = [''INFO'', ''WARN'', ''ERROR'', ''DEBUG'', ''STEP'']"

definition required :: "string \<Rightarrow> 'a option \<Rightarrow> loc list" where
  "required f v = (case v of None \<Rightarrow> [[Fld f]] | Some _ \<Rightarrow> [])"

definition literal :: "string list \<Rightarrow> string \<Rightarrow> string option \<Rightarrow> loc list" where
  "literal allowed f v =
     (case v of None \<Rightarrow> [] | Some x \<Rightarrow> if x \<in> set allowed then [] else [[Fld f]])"

definition ge0 :: "string \<Rightarrow> int option \<Rightarrow> loc list" where
  "ge0 f v = (case v of None \<Rightarrow> [] | Some x \<Rightarrow> if 0 \<le> x then [] else [[Fld f]])"

definition dflt :: "'a \<Rightarrow> 'a option \<Rightarrow> 'a" where
  "dflt d v = (case v of None \<Rightarrow> d | Some x \<Rightarrow> x)"

record TestRun =
  tr_name :: string
  tr_environment :: "string option"
  tr_branch :: "string option"
  tr_build :: "string option"
  tr_status :: string
  tr_started_at :: "int option"
  tr_finished_at :: "int option"
  tr_duration_ms :: "int option"
  tr_total :: int
  tr_passed :: int
  tr_failed :: int
  tr_skipped :: int
  tr_blocked :: int
  tr_platform :: "string option"
  tr_tags :: "string list"

record TestRun_raw =
  trr_name :: "string option"
  trr_environment :: "string option"
  trr_branch :: "string option"
  trr_build :: "string option"
  trr_status :: "string option"
  trr_started_at :: "int option"
  trr_finished_at :: "int option"
  trr_duration_ms :: "int option"
  trr_total :: "int option"
  trr_passed :: "int option"
  trr_failed :: "int option"
  trr_skipped :: "int option"
  trr_blocked :: "int option"
  trr_platform :: "string option"
  trr_tags :: "string list option"

definition TestRun_errors :: "TestRun_raw \<Rightarrow> loc list" where
  "TestRun_errors r =
     required ''name'' (trr_name r) @
     literal statuses ''status'' (trr_status r) @
     ge0 ''duration_ms'' (trr_duration_ms r) @
     ge0 ''total'' (trr_total r) @
     ge0 ''passed'' (trr_passed r) @
     ge0 ''failed'' (trr_failed r) @
     ge0 ''skipped'' (trr_skipped r) @
     ge0 ''blocked'' (trr_blocked r)"

definition TestRun_validate :: "TestRun_raw \<Rightarrow> loc list + TestRun" where
  "TestRun_validate r =
     (if TestRun_errors r \<noteq> [] then Inl (TestRun_errors r)
      else Inr \<lparr>tr_name = the (trr_name r),
                tr_environment = trr_environment r,
                tr_branch = trr_branch r,
                tr_build = trr_build r,
                tr_status = dflt ''running'' (trr_status r),
                tr_started_at = trr_started_at r,
                tr_finished_at = trr_finished_at r,
                tr_duration_ms = trr_duration_ms r,
                tr_total = dflt 0 (trr_total r),
                tr_passed = dflt 0 (trr_passed r),
                tr_failed = dflt 0 (trr_failed r),
                tr_skipped = dflt 0 (trr_skipped r),
                tr_blocked = dflt 0 (trr_blocked r),
                tr_platform = trr_platform r,
                tr_tags = dflt [] (trr_tags r)\<rparr>)"

record TestSuite =
  ts_run_id :: string
  ts_name :: string
  ts_status :: string
  ts_duration_ms :: "int option"
  ts_total :: int
  ts_passed :: int
  ts_failed :: int
  ts_skipped :: int
  ts_order :: "int option"

record TestSuite_raw =
  tsr_run_id :: "string option"
  tsr_name :: "string option"
  tsr_status :: "string option"
  tsr_duration_ms :: "int option"
  tsr_total :: "int option"
  tsr_passed :: "int option"
  tsr_failed :: "int option"
  tsr_skipped :: "int option"
  tsr_order :: "int option"

definition TestSuite_errors :: "TestSuite_raw \<Rightarrow> loc list" where
  "TestSuite_errors r =
     required ''run_id'' (tsr_run_id r) @
     required ''name'' (tsr_name r) @
     literal statuses ''status'' (tsr_status r) @
     ge0 ''duration_ms'' (tsr_duration_ms r)"

definition TestSuite_validate :: "TestSuite_raw \<Rightarrow> loc list + TestSuite" where
  "TestSuite_validate r =
     (if TestSuite_errors r \<noteq> [] then Inl (TestSuite_errors r)
      else Inr \<lparr>ts_run_id = the (tsr_run_id r),
                ts_name = the (tsr_name r),
                ts_status = dflt ''running'' (tsr_status r),
                ts_duration_ms = tsr_duration_ms r,
                ts_total = dflt 0 (tsr_total r),
                ts_passed = dflt 0 (tsr_passed r),
                ts_failed = dflt 0 (tsr_failed r),
                ts_skipped = dflt 0 (tsr_skipped r),
                ts_order = tsr_order r\<rparr>)"

record TestCase =
  tc_run_id :: string
  tc_suite_id :: string
  tc_name :: string
  tc_class_name :: "string option"
  tc_status :: string
  tc_duration_ms :: "int option"
  tc_error_message :: "string option"
  tc_error_trace :: "string option"
  tc_retries :: int
  tc_category :: "string option"
  tc_author :: "string option"

record TestCase_raw =
  tcr_run_id :: "string option"
  tcr_suite_id :: "string option"
  tcr_name :: "string option"
  tcr_class_name :: "string option"
  tcr_status :: "string option"
  tcr_duration_ms :: "int option"
  tcr_error_message :: "string option"
  tcr_error_trace :: "string option"
  tcr_retries :: "int option"
  tcr_category :: "string option"
  tcr_author :: "string option"

definition TestCase_errors :: "TestCase_raw \<Rightarrow> loc list" where
  "TestCase_errors r =
     required ''run_id'' (tcr_run_id r) @
     required ''suite_id'' (tcr_suite_id r) @
     required ''name'' (tcr_name r) @
     literal statuses ''status'' (tcr_status r) @
     ge0 ''duration_ms'' (tcr_duration_ms r)"

definition TestCase_validate :: "TestCase_raw \<Rightarrow> loc list + TestCase" where
  "TestCase_validate r =
     (if TestCase_errors r \<noteq> [] then Inl (TestCase_errors r)
      else Inr \<lparr>tc_run_id = the (tcr_run_id r),
                tc_suite_id = the (tcr_suite_id r),
                tc_name = the (tcr_name r),
                tc_class_name = tcr_class_name r,
                tc_status = dflt ''running'' (tcr_status r),
                tc_duration_ms = tcr_duration_ms r,
                tc_error_message = tcr_error_message r,
                tc_error_trace = tcr_error_trace r,
                tc_retries = dflt 0 (tcr_retries r),
                tc_category = tcr_category r,
                tc_author = tcr_author r\<rparr>)"

record LogEntry =
  le_run_id :: string
  le_case_id :: string
  le_level :: string
  le_message :: string
  le_timestamp :: "int option"
  le_step :: "string option"
  le_attachment_url :: "string option"

record LogEntry_raw =
  ler_run_id :: "string option"
  ler_case_id :: "string option"
  ler_level :: "string option"
  ler_message :: "string option"
  ler_timestamp :: "int option"
  ler_step :: "string option"
  ler_attachment_url :: "string option"

definition LogEntry_errors :: "LogEntry_raw \<Rightarrow> loc list" where
  "LogEntry_errors r =
     required ''run_id'' (ler_run_id r) @
     required ''case_id'' (ler_case_id r) @
     literal levels ''level'' (ler_level r) @
     required ''message'' (ler_message r)"

definition LogEntry_build :: "LogEntry_raw \<Rightarrow> LogEntry" where
  "LogEntry_build r =
     \<lparr>le_run_id = the (ler_run_id r),
      le_case_id = the (ler_case_id r),
      le_level = dflt ''INFO'' (ler_level r),
      le_message = the (ler_message r),
      le_timestamp = ler_timestamp r,
      le_step = ler_step r,
      le_attachment_url = ler_attachment_url r\<rparr>"

definition LogEntry_validate :: "LogEntry_raw \<Rightarrow> loc list + LogEntry" where
  "LogEntry_validate r =
     (if LogEntry_errors r \<noteq> [] then Inl (LogEntry_errors r) else Inr (LogEntry_build r))"


record IngestCase =
  ic_name :: string
  ic_class_name :: "string option"
  ic_status :: string
  ic_duration_ms :: "int option"
  ic_error_message :: "string option"
  ic_error_trace :: "string option"
  ic_retries :: int
  ic_category :: "string option"
  ic_author :: "string option"
  ic_logs :: "LogEntry list"

record IngestCase_raw =
  icr_name :: "string option"
  icr_class_name :: "string option"
  icr_status :: "string option"
  icr_duration_ms :: "int option"
  icr_error_message :: "string option"
  icr_error_trace :: "string option"
  icr_retries :: "int option"
  icr_category :: "string option"
  icr_author :: "string option"
  icr_logs :: "LogEntry_raw list option"


definition IngestCase_build :: "IngestCase_raw \<Rightarrow> IngestCase" where
  "IngestCase_build r =
     \<lparr>ic_name = the (icr_name r),
      ic_class_name = icr_class_name r,
      ic_status = the (icr_status r),
      ic_duration_ms = icr_duration_ms r,
      ic_error_message = icr_error_message r,
      ic_error_trace = icr_error_trace r,
      ic_retries = dflt 0 (icr_retries r),
      ic_category = icr_category r,
      ic_author = icr_author r,
      ic_logs = map LogEntry_build (dflt [] (icr_logs r))\<rparr>"

record IngestSuite =
  is_name :: string
  is_status :: string
  is_duration_ms :: "int option"
  is_total :: "int option"
  is_passed :: "int option"
  is_failed :: "int option"
  is_skipped :: "int option"
  is_order :: "int option"
  is_cases :: "IngestCase list"

record IngestSuite_raw =
  isr_name :: "string option"
  isr_status :: "string option"
  isr_duration_ms :: "int option"
  isr_total :: "int option"
  isr_passed :: "int option"
  isr_failed :: "int option"
  isr_skipped :: "int option"
  isr_order :: "int option"
  isr_cases :: "IngestCase_raw list option"


definition IngestSuite_build :: "IngestSuite_raw \<Rightarrow> IngestSuite" where
  "IngestSuite_build r =
     \<lparr>is_name = the (isr_name r),
      is_status = the (isr_status r),
      is_duration_ms = isr_duration_ms r,
      is_total = isr_total r,
      is_passed = isr_passed r,
      is_failed = isr_failed r,
      is_skipped = isr_skipped r,
      is_order = isr_order r,
      is_cases = map IngestCase_build (dflt [] (isr_cases r))\<rparr>"

record IngestRun =
  ir_name :: string
  ir_environment :: "string option"
  ir_branch :: "string option"
  ir_build :: "string option"
  ir_status :: string
  ir_started_at :: "int option"
  ir_finished_at :: "int option"
  ir_duration_ms :: "int option"
  ir_platform :: "string option"
  ir_tags :: "string list"
  ir_suites :: "IngestSuite list"

record IngestRun_raw =
  irr_name :: "string option"
  irr_environment :: "string option"
  irr_branch :: "string option"
  irr_build :: "string option"
  irr_status :: "string option"
  irr_started_at :: "int option"
  irr_finished_at :: "int option"
  irr_duration_ms :: "int option"
  irr_platform :: "string option"
  irr_tags :: "string list option"
  irr_suites :: "IngestSuite_raw list option"


definition IngestRun_build :: "IngestRun_raw \<Rightarrow> IngestRun" where
  "IngestRun_build r =
     \<lparr>ir_name = the (irr_name r),
      ir_environment = irr_environment r,
      ir_branch = irr_branch r,
      ir_build = irr_build r,
      ir_status = the (irr_status r),
      ir_started_at = irr_started_at r,
      ir_finished_at = irr_finished_at r,
      ir_duration_ms = irr_duration_ms r,
      ir_platform = irr_platform r,
      ir_tags = dflt [] (irr_tags r),
      ir_suites = map IngestSuite_build (dflt [] (irr_suites r))\<rparr>"


text \<open>\<^verbatim>\<open>RunFinishPayload\<close> (main.py): every field optional, none constrained.\<close>

record RunFinishPayload =
  rf_status :: "string option"
  rf_finished_at :: "int option"
  rf_duration_ms :: "int option"
  rf_total :: "int option"
  rf_passed :: "int option"
  rf_failed :: "int option"
  rf_skipped :: "int option"
  rf_blocked :: "int option"

section \<open>The document store\<close>

text \<open>
  The four collections the handlers use, each a list of documents in insertion order, a
  document being its \<^verbatim>\<open>_id\<close> and the dumped model. \<open>next_oid\<close> is the identifier the
  store generates next.
\<close>

record store =
  testrun :: "(oid \<times> TestRun) list"
  testsuite :: "(oid \<times> TestSuite) list"
  testcase :: "(oid \<times> TestCase) list"
  logentry :: "(oid \<times> LogEntry) list"
  next_oid :: oid

definition empty_store :: store where
  "empty_store = \<lparr>testrun = [], testsuite = [], testcase = [], logentry = [], next_oid = 0\<rparr>"

text \<open>
  Modelled from the spec: \<^verbatim>\<open>database.create_document(collection_name, data)\<close> is imported
  by main.py and its module is not among the sources. The spec has every entity
  "persisted as an independent record with a generated unique identifier" and the
  boundary operations answer with that identifier as a string: the document is appended
  to the named collection under a newly generated identifier, whose string form is
  returned. One function per collection, since the collections are typed here.
\<close>

definition create_document_testrun :: "TestRun \<Rightarrow> store \<Rightarrow> string \<times> store" where
  "create_document_testrun d s =
     (str_oid (next_oid s),
      s\<lparr>testrun := testrun s @ [(next_oid s, d)], next_oid := Suc (next_oid s)\<rparr>)"

definition create_document_testsuite :: "TestSuite \<Rightarrow> store \<Rightarrow> string \<times> store" where
  "create_document_testsuite d s =
     (str_oid (next_oid s),
      s\<lparr>testsuite := testsuite s @ [(next_oid s, d)], next_oid := Suc (next_oid s)\<rparr>)"

definition create_document_testcase :: "TestCase \<Rightarrow> store \<Rightarrow> string \<times> store" where
  "create_document_testcase d s =
     (str_oid (next_oid s),
      s\<lparr>testcase := testcase s @ [(next_oid s, d)], next_oid := Suc (next_oid s)\<rparr>)"

definition create_document_logentry :: "LogEntry \<Rightarrow> store \<Rightarrow> string \<times> store" where
  "create_document_logentry d s =
     (str_oid (next_oid s),
      s\<lparr>logentry := logentry s @ [(next_oid s, d)], next_oid := Suc (next_oid s)\<rparr>)"

text \<open>
  The collection methods of the driver that main.py calls: \<^verbatim>\<open>find_one\<close> by \<^verbatim>\<open>_id\<close>
  (the first match, or nothing) and \<^verbatim>\<open>update_one\<close> by \<^verbatim>\<open>_id\<close> with \<^verbatim>\<open>$set\<close> (the
  first match is changed; no match changes nothing, since no upsert is asked for).
\<close>

fun find_one :: "oid \<Rightarrow> (oid \<times> 'a) list \<Rightarrow> (oid \<times> 'a) option" where
  "find_one i [] = None"
| "find_one i ((j, d) # ds) = (if j = i then Some (j, d) else find_one i ds)"

fun update_one :: "oid \<Rightarrow> ('a \<Rightarrow> 'a) \<Rightarrow> (oid \<times> 'a) list \<Rightarrow> (oid \<times> 'a) list" where
  "update_one i f [] = []"
| "update_one i f ((j, d) # ds) =
     (if j = i then (j, f d) # ds else (j, d) # update_one i f ds)"

section \<open>Handlers (main.py)\<close>

text \<open>
  A handler takes the store and returns its answer, or the exception it raised, with the
  store as it is then. \<^verbatim>\<open>datetime.now(timezone.utc)\<close> is the parameter \<open>now\<close>, the instant
  of the call.
\<close>

definition to_object_id :: "string \<Rightarrow> error + oid" where
  "to_object_id id_str =
     (case ObjectId id_str of
        None \<Rightarrow> Inl (HTTPException 400 ''Invalid id'')
      | Some i \<Rightarrow> Inr i)"

text \<open>
  \<^verbatim>\<open>serialize_doc\<close> replaces \<^verbatim>\<open>_id\<close> by its string under \<^verbatim>\<open>id\<close> and returns a falsy
  document (\<^verbatim>\<open>None\<close>) unchanged; datetimes stay the instants they are here.
\<close>

definition serialize_doc :: "(oid \<times> 'a) option \<Rightarrow> (string \<times> 'a) option" where
  "serialize_doc doc = (case doc of None \<Rightarrow> None | Some (i, d) \<Rightarrow> Some (str_oid i, d))"

definition create_run :: "int \<Rightarrow> TestRun \<Rightarrow> store \<Rightarrow> (error + string) \<times> store" where
  "create_run now run s =
     (let data = run\<lparr>tr_started_at :=
                   (case tr_started_at run of None \<Rightarrow> Some now | Some t \<Rightarrow> Some t)\<rparr>;
          (inserted_id, s') = create_document_testrun data s
      in (Inr inserted_id, s'))"








definition finish_set :: "RunFinishPayload \<Rightarrow> int \<Rightarrow> TestRun \<Rightarrow> TestRun" where
  "finish_set payload now run =
     run\<lparr>tr_status := dflt (tr_status run) (rf_status payload),
         tr_finished_at :=
           (case rf_finished_at payload of None \<Rightarrow> Some now | Some t \<Rightarrow> Some t),
         tr_duration_ms :=
           (case rf_duration_ms payload of None \<Rightarrow> tr_duration_ms run | Some v \<Rightarrow> Some v),
         tr_total := dflt (tr_total run) (rf_total payload),
         tr_passed := dflt (tr_passed run) (rf_passed payload),
         tr_failed := dflt (tr_failed run) (rf_failed payload),
         tr_skipped := dflt (tr_skipped run) (rf_skipped payload),
         tr_blocked := dflt (tr_blocked run) (rf_blocked payload)\<rparr>"

definition finish_run ::
  "int \<Rightarrow> string \<Rightarrow> RunFinishPayload \<Rightarrow> store \<Rightarrow> (error + (string \<times> TestRun) option) \<times> store" where
  "finish_run now run_id payload s =
     (case to_object_id run_id of
        Inl e \<Rightarrow> (Inl e, s)
      | Inr i \<Rightarrow>
          (let s' = s\<lparr>testrun := update_one i (finish_set payload now) (testrun s)\<rparr>
           in (Inr (serialize_doc (find_one i (testrun s'))), s')))"

definition create_suite :: "string \<Rightarrow> TestSuite \<Rightarrow> store \<Rightarrow> (error + string) \<times> store" where
  "create_suite run_id suite s =
     (if ts_run_id suite \<noteq> run_id then (Inl (HTTPException 400 ''run_id mismatch''), s)
      else (let (inserted_id, s') = create_document_testsuite suite s
            in (Inr inserted_id, s')))"

definition create_case :: "string \<Rightarrow> TestCase \<Rightarrow> store \<Rightarrow> (error + string) \<times> store" where
  "create_case suite_id case' s =
     (if tc_suite_id case' \<noteq> suite_id then (Inl (HTTPException 400 ''suite_id mismatch''), s)
      else (let (inserted_id, s') = create_document_testcase case' s
            in (Inr inserted_id, s')))"

definition add_log :: "int \<Rightarrow> string \<Rightarrow> LogEntry \<Rightarrow> store \<Rightarrow> (error + string) \<times> store" where
  "add_log now case_id log s =
     (if le_case_id log \<noteq> case_id then (Inl (HTTPException 400 ''case_id mismatch''), s)
      else (let data = log\<lparr>le_timestamp :=
                         (case le_timestamp log of None \<Rightarrow> Some now | Some t \<Rightarrow> Some t)\<rparr>;
                (inserted_id, s') = create_document_logentry data s
            in (Inr inserted_id, s')))"

text \<open>
  \<^verbatim>\<open>ingest\<close>. The three nested loops are three recursive functions, innermost first.
  Each model constructor validates its arguments and may raise; what was inserted before
  stays in the store. \<^verbatim>\<open>x or 0\<close> is \<open>0\<close> for an absent \<open>x\<close> (and for \<open>0\<close>), and
  \<^verbatim>\<open>t or now\<close> is \<open>now\<close> for an absent datetime.
\<close>

definition or0 :: "int option \<Rightarrow> int" where
  "or0 v = (case v of None \<Rightarrow> 0 | Some x \<Rightarrow> if x = 0 then 0 else x)"

definition log_kwargs :: "int \<Rightarrow> string \<Rightarrow> string \<Rightarrow> LogEntry \<Rightarrow> LogEntry_raw" where
  "log_kwargs now run_id case_id l =
     \<lparr>ler_run_id = Some run_id,
      ler_case_id = Some case_id,
      ler_level = Some (le_level l),
      ler_message = Some (le_message l),
      ler_timestamp = (case le_timestamp l of None \<Rightarrow> Some now | Some t \<Rightarrow> Some t),
      ler_step = le_step l,
      ler_attachment_url = le_attachment_url l\<rparr>"

fun ingest_logs ::
  "int \<Rightarrow> string \<Rightarrow> string \<Rightarrow> LogEntry list \<Rightarrow> store \<Rightarrow> (error + unit) \<times> store" where
  "ingest_logs now run_id case_id [] s = (Inr (), s)"
| "ingest_logs now run_id case_id (l # ls) s =
     (case LogEntry_validate (log_kwargs now run_id case_id l) of
        Inl e \<Rightarrow> (Inl (ValidationError e), s)
      | Inr log_data \<Rightarrow>
          ingest_logs now run_id case_id ls (snd (create_document_logentry log_data s)))"

definition case_kwargs :: "string \<Rightarrow> string \<Rightarrow> IngestCase \<Rightarrow> TestCase_raw" where
  "case_kwargs run_id suite_id c =
     \<lparr>tcr_run_id = Some run_id,
      tcr_suite_id = Some suite_id,
      tcr_name = Some (ic_name c),
      tcr_class_name = ic_class_name c,
      tcr_status = Some (ic_status c),
      tcr_duration_ms = ic_duration_ms c,
      tcr_error_message = ic_error_message c,
      tcr_error_trace = ic_error_trace c,
      tcr_retries = Some (ic_retries c),
      tcr_category = ic_category c,
      tcr_author = ic_author c\<rparr>"

fun ingest_cases ::
  "int \<Rightarrow> string \<Rightarrow> string \<Rightarrow> IngestCase list \<Rightarrow> store \<Rightarrow> (error + unit) \<times> store" where
  "ingest_cases now run_id suite_id [] s = (Inr (), s)"
| "ingest_cases now run_id suite_id (c # cs) s =
     (case TestCase_validate (case_kwargs run_id suite_id c) of
        Inl e \<Rightarrow> (Inl (ValidationError e), s)
      | Inr case_data \<Rightarrow>
          (let (case_id, s1) = create_document_testcase case_data s
           in case ingest_logs now run_id case_id (ic_logs c) s1 of
                (Inl e, s2) \<Rightarrow> (Inl e, s2)
              | (Inr _, s2) \<Rightarrow> ingest_cases now run_id suite_id cs s2))"

definition suite_kwargs :: "string \<Rightarrow> nat \<Rightarrow> IngestSuite \<Rightarrow> TestSuite_raw" where
  "suite_kwargs run_id order su =
     \<lparr>tsr_run_id = Some run_id,
      tsr_name = Some (is_name su),
      tsr_status = Some (is_status su),
      tsr_duration_ms = is_duration_ms su,
      tsr_total = Some (or0 (is_total su)),
      tsr_passed = Some (or0 (is_passed su)),
      tsr_failed = Some (or0 (is_failed su)),
      tsr_skipped = Some (or0 (is_skipped su)),
      tsr_order = (case is_order su of None \<Rightarrow> Some (int order) | Some v \<Rightarrow> Some v)\<rparr>"

type_synonym counters = "int \<times> int \<times> int \<times> int \<times> int"

fun ingest_suites ::
  "int \<Rightarrow> string \<Rightarrow> nat \<Rightarrow> IngestSuite list \<Rightarrow> counters \<Rightarrow> store \<Rightarrow> (error + counters) \<times> store"
  where
  "ingest_suites now run_id order [] acc s = (Inr acc, s)"
| "ingest_suites now run_id order (su # sus) (total', passed, failed, skipped, blocked) s =
     (case TestSuite_validate (suite_kwargs run_id order su) of
        Inl e \<Rightarrow> (Inl (ValidationError e), s)
      | Inr suite_data \<Rightarrow>
          (let (suite_id, s1) = create_document_testsuite suite_data s;
               acc = (total' + ts_total suite_data, passed + ts_passed suite_data,
                      failed + ts_failed suite_data, skipped + ts_skipped suite_data,
                      blocked + 0)
           in case ingest_cases now run_id suite_id (is_cases su) s1 of
                (Inl e, s2) \<Rightarrow> (Inl e, s2)
              | (Inr _, s2) \<Rightarrow> ingest_suites now run_id (Suc order) sus acc s2))"

definition run_kwargs :: "int \<Rightarrow> IngestRun \<Rightarrow> TestRun_raw" where
  "run_kwargs now payload =
     \<lparr>trr_name = Some (ir_name payload),
      trr_environment = ir_environment payload,
      trr_branch = ir_branch payload,
      trr_build = ir_build payload,
      trr_status = Some (ir_status payload),
      trr_started_at = (case ir_started_at payload of None \<Rightarrow> Some now | Some t \<Rightarrow> Some t),
      trr_finished_at = ir_finished_at payload,
      trr_duration_ms = ir_duration_ms payload,
      trr_total = None,
      trr_passed = None,
      trr_failed = None,
      trr_skipped = None,
      trr_blocked = None,
      trr_platform = ir_platform payload,
      trr_tags = Some (ir_tags payload)\<rparr>"

definition set_aggregates :: "counters \<Rightarrow> TestRun \<Rightarrow> TestRun" where
  "set_aggregates acc run =
     (case acc of (total', passed, failed, skipped, blocked) \<Rightarrow>
        run\<lparr>tr_total := total', tr_passed := passed, tr_failed := failed,
            tr_skipped := skipped, tr_blocked := blocked\<rparr>)"

definition ingest :: "int \<Rightarrow> IngestRun \<Rightarrow> store \<Rightarrow> (error + string) \<times> store" where
  "ingest now payload s =
     (case TestRun_validate (run_kwargs now payload) of
        Inl e \<Rightarrow> (Inl (ValidationError e), s)
      | Inr run_data \<Rightarrow>
          (let (run_id, s1) = create_document_testrun run_data s
           in case ingest_suites now run_id 0 (ir_suites payload) (0, 0, 0, 0, 0) s1 of
                (Inl e, s2) \<Rightarrow> (Inl e, s2)
              | (Inr acc, s2) \<Rightarrow>
                  (case to_object_id run_id of
                     Inl e \<Rightarrow> (Inl e, s2)
                   | Inr i \<Rightarrow>
                       (Inr run_id,
                        s2\<lparr>testrun := update_one i (set_aggregates acc) (testrun s2)\<rparr>))))"


section \<open>Properties of stores and payloads\<close>

text \<open>The identifiers of the stored runs, suites and cases, as the strings children hold.\<close>

definition run_ids :: "store \<Rightarrow> string list" where
  "run_ids s = map (\<lambda>(i, r). str_oid i) (testrun s)"

definition suite_ids :: "store \<Rightarrow> string list" where
  "suite_ids s = map (\<lambda>(i, su). str_oid i) (testsuite s)"

definition case_ids :: "store \<Rightarrow> string list" where
  "case_ids s = map (\<lambda>(i, c). str_oid i) (testcase s)"

text \<open>
  Referential integrity: the \<open>run_id\<close> of every stored suite is the identifier of a
  stored run, the \<open>suite_id\<close> of every stored case that of a stored suite, and the
  \<open>case_id\<close> of every stored log that of a stored case.
\<close>

definition ref_integrity :: "store \<Rightarrow> bool" where
  "ref_integrity s \<longleftrightarrow>
     list_all (\<lambda>(i, su). ts_run_id su \<in> set (run_ids s)) (testsuite s) \<and>
     list_all (\<lambda>(i, c). tc_suite_id c \<in> set (suite_ids s)) (testcase s) \<and>
     list_all (\<lambda>(i, l). le_case_id l \<in> set (case_ids s)) (logentry s)"

text \<open>
  Generated identifiers are unique: every identifier in the store was generated before
  the one the store generates next.
\<close>

definition oids_below :: "store \<Rightarrow> bool" where
  "oids_below s \<longleftrightarrow>
     list_all (\<lambda>(i, r). i < next_oid s) (testrun s) \<and>
     list_all (\<lambda>(i, su). i < next_oid s) (testsuite s) \<and>
     list_all (\<lambda>(i, c). i < next_oid s) (testcase s) \<and>
     list_all (\<lambda>(i, l). i < next_oid s) (logentry s)"

text \<open>The documents \<^verbatim>\<open>ingest\<close> builds from a payload's suite, case and log.\<close>

definition suite_doc :: "string \<Rightarrow> nat \<Rightarrow> IngestSuite \<Rightarrow> TestSuite" where
  "suite_doc run_id order su =
     \<lparr>ts_run_id = run_id,
      ts_name = is_name su,
      ts_status = is_status su,
      ts_duration_ms = is_duration_ms su,
      ts_total = dflt 0 (is_total su),
      ts_passed = dflt 0 (is_passed su),
      ts_failed = dflt 0 (is_failed su),
      ts_skipped = dflt 0 (is_skipped su),
      ts_order = Some (dflt (int order) (is_order su))\<rparr>"

definition case_doc :: "string \<Rightarrow> string \<Rightarrow> IngestCase \<Rightarrow> TestCase" where
  "case_doc run_id suite_id c =
     \<lparr>tc_run_id = run_id,
      tc_suite_id = suite_id,
      tc_name = ic_name c,
      tc_class_name = ic_class_name c,
      tc_status = ic_status c,
      tc_duration_ms = ic_duration_ms c,
      tc_error_message = ic_error_message c,
      tc_error_trace = ic_error_trace c,
      tc_retries = ic_retries c,
      tc_category = ic_category c,
      tc_author = ic_author c\<rparr>"

definition log_doc :: "int \<Rightarrow> string \<Rightarrow> string \<Rightarrow> LogEntry \<Rightarrow> LogEntry" where
  "log_doc now run_id case_id l =
     \<lparr>le_run_id = run_id,
      le_case_id = case_id,
      le_level = le_level l,
      le_message = le_message l,
      le_timestamp = Some (dflt now (le_timestamp l)),
      le_step = le_step l,
      le_attachment_url = le_attachment_url l\<rparr>"

text \<open>All cases of a payload, suite after suite.\<close>

definition payload_cases :: "IngestSuite list \<Rightarrow> IngestCase list" where
  "payload_cases sus = concat (map is_cases sus)"

text \<open>
  The logs stored for a list of payload cases, given the stored case documents the cases
  became: each payload case's logs, in order, under the identifier of its stored case.
\<close>

definition logs_of_cases ::
  "int \<Rightarrow> string \<Rightarrow> (oid \<times> TestCase) list \<Rightarrow> IngestCase list \<Rightarrow> LogEntry list" where
  "logs_of_cases now run_id stored cs =
     concat (map (\<lambda>((i, d), c). map (log_doc now run_id (str_oid i)) (ic_logs c)) (zip stored cs))"





text \<open>The number of documents \<^verbatim>\<open>ingest\<close> inserts for a payload.\<close>

definition payload_logs :: "IngestSuite list \<Rightarrow> LogEntry list" where
  "payload_logs sus = concat (map ic_logs (payload_cases sus))"

definition payload_size :: "IngestRun \<Rightarrow> nat" where
  "payload_size p =
     1 + length (ir_suites p) + length (payload_cases (ir_suites p)) +
     length (payload_logs (ir_suites p))"

text \<open>
  A payload with the identifiers supplied on its logs replaced by \<open>a\<close> and \<open>b\<close>.
\<close>

definition scrub_log :: "string \<Rightarrow> string \<Rightarrow> LogEntry \<Rightarrow> LogEntry" where
  "scrub_log a b l = l\<lparr>le_run_id := a, le_case_id := b\<rparr>"

definition scrub_case :: "string \<Rightarrow> string \<Rightarrow> IngestCase \<Rightarrow> IngestCase" where
  "scrub_case a b c = c\<lparr>ic_logs := map (scrub_log a b) (ic_logs c)\<rparr>"

definition scrub_suite :: "string \<Rightarrow> string \<Rightarrow> IngestSuite \<Rightarrow> IngestSuite" where
  "scrub_suite a b su = su\<lparr>is_cases := map (scrub_case a b) (is_cases su)\<rparr>"

definition scrub :: "string \<Rightarrow> string \<Rightarrow> IngestRun \<Rightarrow> IngestRun" where
  "scrub a b p = p\<lparr>ir_suites := map (scrub_suite a b) (ir_suites p)\<rparr>"

text \<open>
  Sequences of operations. \<open>apply_op\<close> is the store a handler leaves, and
  \<open>parent_known\<close> says that the parent id in the path of a \<^verbatim>\<open>create_suite\<close>,
  \<^verbatim>\<open>create_case\<close> or \<^verbatim>\<open>add_log\<close> call names a stored record.
\<close>

datatype op =
    CreateRun int TestRun
  | CreateSuite string TestSuite
  | CreateCase string TestCase
  | AddLog int string LogEntry
  | Ingest int IngestRun

fun apply_op :: "op \<Rightarrow> store \<Rightarrow> store" where
  "apply_op (CreateRun now run) s = snd (create_run now run s)"
| "apply_op (CreateSuite run_id suite) s = snd (create_suite run_id suite s)"
| "apply_op (CreateCase suite_id c) s = snd (create_case suite_id c s)"
| "apply_op (AddLog now case_id l) s = snd (add_log now case_id l s)"
| "apply_op (Ingest now payload) s = snd (ingest now payload s)"

fun parent_known :: "op \<Rightarrow> store \<Rightarrow> bool" where
  "parent_known (CreateSuite run_id suite) s \<longleftrightarrow> run_id \<in> set (run_ids s)"
| "parent_known (CreateCase suite_id c) s \<longleftrightarrow> suite_id \<in> set (suite_ids s)"
| "parent_known (AddLog now case_id l) s \<longleftrightarrow> case_id \<in> set (case_ids s)"
| "parent_known _ s \<longleftrightarrow> True"

fun run_ops :: "op list \<Rightarrow> store \<Rightarrow> store" where
  "run_ops [] s = s"
| "run_ops (x # xs) s = run_ops xs (apply_op x s)"

fun parents_known :: "op list \<Rightarrow> store \<Rightarrow> bool" where
  "parents_known [] s \<longleftrightarrow> True"
| "parents_known (x # xs) s \<longleftrightarrow> parent_known x s \<and> parents_known xs (apply_op x s)"

section \<open>Concrete inputs\<close>

definition zero_id :: string where
  "zero_id = ''000000000000000000000000''"

definition empty_finish :: RunFinishPayload where
  "empty_finish =
     \<lparr>rf_status = None, rf_finished_at = None, rf_duration_ms = None, rf_total = None,
      rf_passed = None, rf_failed = None, rf_skipped = None, rf_blocked = None\<rparr>"

definition suite_negative_total :: TestSuite_raw where
  "suite_negative_total =
     \<lparr>tsr_run_id = Some zero_id, tsr_name = Some ''Auth'', tsr_status = None,
      tsr_duration_ms = None, tsr_total = Some (- 1), tsr_passed = None, tsr_failed = None,
      tsr_skipped = None, tsr_order = None\<rparr>"

definition stray_suite :: TestSuite where
  "stray_suite =
     \<lparr>ts_run_id = zero_id, ts_name = ''Auth'', ts_status = ''running'',
      ts_duration_ms = None, ts_total = 0, ts_passed = 0, ts_failed = 0, ts_skipped = 0,
      ts_order = None\<rparr>"

definition stray_case :: TestCase where
  "stray_case =
     \<lparr>tc_run_id = zero_id, tc_suite_id = zero_id, tc_name = ''login'',
      tc_class_name = None, tc_status = ''running'', tc_duration_ms = None,
      tc_error_message = None, tc_error_trace = None, tc_retries = 0, tc_category = None,
      tc_author = None\<rparr>"

definition stray_log :: LogEntry where
  "stray_log =
     \<lparr>le_run_id = zero_id, le_case_id = zero_id, le_level = ''INFO'', le_message = ''start'',
      le_timestamp = None, le_step = None, le_attachment_url = None\<rparr>"

text \<open>
  \<open>appended s s' ns nc nl\<close>: the store \<open>s'\<close> is \<open>s\<close> with the suites \<open>ns\<close>, the cases
  \<open>nc\<close> and the logs \<open>nl\<close> appended, under identifiers generated from \<open>next_oid s\<close> on.
\<close>

definition appended ::
  "store \<Rightarrow> store \<Rightarrow> (oid \<times> TestSuite) list \<Rightarrow> (oid \<times> TestCase) list \<Rightarrow>
   (oid \<times> LogEntry) list \<Rightarrow> bool" where
  "appended s s' ns nc nl \<longleftrightarrow>
     testrun s' = testrun s \<and>
     testsuite s' = testsuite s @ ns \<and>
     testcase s' = testcase s @ nc \<and>
     logentry s' = logentry s @ nl \<and>
     next_oid s' = next_oid s + length ns + length nc + length nl \<and>
     list_all (\<lambda>(i, d). next_oid s \<le> i \<and> i < next_oid s') ns \<and>
     list_all (\<lambda>(i, d). next_oid s \<le> i \<and> i < next_oid s') nc \<and>
     list_all (\<lambda>(i, d). next_oid s \<le> i \<and> i < next_oid s') nl"


text \<open>
  The scenario payload: run "Nightly" with one suite "Auth", one case "login" and the
  logs "start" and "ok". \<open>a\<close> and \<open>b\<close> are the \<open>run_id\<close> and \<open>case_id\<close> given on
  each log (\<open>None\<close>: not given).
\<close>

definition nightly_log :: "string option \<Rightarrow> string option \<Rightarrow> string \<Rightarrow> LogEntry_raw" where
  "nightly_log a b m =
     \<lparr>ler_run_id = a, ler_case_id = b, ler_level = None, ler_message = Some m,
      ler_timestamp = None, ler_step = None, ler_attachment_url = None\<rparr>"

definition nightly_case :: "string option \<Rightarrow> string option \<Rightarrow> IngestCase_raw" where
  "nightly_case a b =
     \<lparr>icr_name = Some ''login'', icr_class_name = None, icr_status = Some ''passed'',
      icr_duration_ms = None, icr_error_message = None, icr_error_trace = None,
      icr_retries = None, icr_category = None, icr_author = None,
      icr_logs = Some [nightly_log a b ''start'', nightly_log a b ''ok'']\<rparr>"

definition nightly_suite :: "string option \<Rightarrow> string option \<Rightarrow> IngestSuite_raw" where
  "nightly_suite a b =
     \<lparr>isr_name = Some ''Auth'', isr_status = Some ''passed'', isr_duration_ms = None,
      isr_total = Some 2, isr_passed = Some 2, isr_failed = None, isr_skipped = None,
      isr_order = None, isr_cases = Some [nightly_case a b]\<rparr>"

definition nightly_body :: "string option \<Rightarrow> string option \<Rightarrow> IngestRun_raw" where
  "nightly_body a b =
     \<lparr>irr_name = Some ''Nightly'', irr_environment = None, irr_branch = None,
      irr_build = None, irr_status = Some ''passed'', irr_started_at = None,
      irr_finished_at = None, irr_duration_ms = None, irr_platform = None,
      irr_tags = None, irr_suites = Some [nightly_suite a b]\<rparr>"

definition nightly_payload :: IngestRun where
  "nightly_payload = IngestRun_build (nightly_body (Some ''r'') (Some ''c''))"

definition nightly_store :: "int \<Rightarrow> store" where
  "nightly_store now =
     \<lparr>testrun =
        [(0, \<lparr>tr_name = ''Nightly'', tr_environment = None, tr_branch = None,
              tr_build = None, tr_status = ''passed'', tr_started_at = Some now,
              tr_finished_at = None, tr_duration_ms = None, tr_total = 2, tr_passed = 2,
              tr_failed = 0, tr_skipped = 0, tr_blocked = 0, tr_platform = None,
              tr_tags = []\<rparr>)],
      testsuite =
        [(1, \<lparr>ts_run_id = ''000000000000000000000000'', ts_name = ''Auth'',
              ts_status = ''passed'', ts_duration_ms = None, ts_total = 2, ts_passed = 2,
              ts_failed = 0, ts_skipped = 0, ts_order = Some 0\<rparr>)],
      testcase =
        [(2, \<lparr>tc_run_id = ''000000000000000000000000'',
              tc_suite_id = ''000000000000000000000001'', tc_name = ''login'',
              tc_class_name = None, tc_status = ''passed'', tc_duration_ms = None,
              tc_error_message = None, tc_error_trace = None, tc_retries = 0,
              tc_category = None, tc_author = None\<rparr>)],
      logentry =
        [(3, \<lparr>le_run_id = ''000000000000000000000000'',
              le_case_id = ''000000000000000000000002'', le_level = ''INFO'',
              le_message = ''start'', le_timestamp = Some now, le_step = None,
              le_attachment_url = None\<rparr>),
         (4, \<lparr>le_run_id = ''000000000000000000000000'',
              le_case_id = ''000000000000000000000002'', le_level = ''INFO'',
              le_message = ''ok'', le_timestamp = Some now, le_step = None,
              le_attachment_url = None\<rparr>)],
      next_oid = 5\<rparr>"


definition plain_run :: TestRun where
  "plain_run =
     \<lparr>tr_name = ''Nightly'', tr_environment = None, tr_branch = None, tr_build = None,
      tr_status = ''running'', tr_started_at = None, tr_finished_at = None,
      tr_duration_ms = None, tr_total = 0, tr_passed = 0, tr_failed = 0, tr_skipped = 0,
      tr_blocked = 0, tr_platform = None, tr_tags = []\<rparr>"

section \<open>Identifiers: printing and parsing\<close>

lemma hex_val_hex_char: "d < 16 \<Longrightarrow> hex_val (hex_char d) = Some d"
proof -
  assume "d < 16"
  then have "d \<in> {0, 1, 2, 3, 4, 5, 6, 7, 8, 9, 10, 11, 12, 13, 14, 15}"
    by simp presburger
  then show ?thesis
    by (elim insertE emptyE; hypsubst; simp add: hex_val_def hex_char_def)
qed

lemma hex_parse_append:
  "hex_parse a (xs @ ys) = (case hex_parse a xs of None \<Rightarrow> None | Some b \<Rightarrow> hex_parse b ys)"
  by (induction xs arbitrary: a) (auto split: option.splits)

lemma hex_parse_hex_of_nat: "hex_parse 0 (hex_of_nat n) = Some n"
proof (induction n rule: hex_of_nat.induct)
  case (1 n)
  show ?case
  proof (cases "n < 16")
    case True
    then show ?thesis
      by (subst hex_of_nat.simps) (simp add: hex_val_hex_char)
  next
    case False
    with 1 have "hex_parse 0 (hex_of_nat (n div 16)) = Some (n div 16)"
      by simp
    with False show ?thesis
      by (subst hex_of_nat.simps) (simp add: hex_parse_append hex_val_hex_char)
  qed
qed

lemma hex_parse_zeros: "hex_parse 0 (replicate k CHR ''0'' @ xs) = hex_parse 0 xs"
  by (induction k) (simp_all add: hex_val_def)

lemma hex_parse_str_oid: "hex_parse 0 (str_oid n) = Some n"
  by (simp add: str_oid_def hex_parse_zeros hex_parse_hex_of_nat)


lemma ObjectId_str_oid: "ObjectId (str_oid n) = Some i \<Longrightarrow> i = n"
  by (simp add: ObjectId_def hex_parse_str_oid split: if_splits)




lemma ObjectId_zeros: "ObjectId ''000000000000000000000000'' = Some 0"
  by (simp add: ObjectId_def hex_val_def)

section \<open>Collections\<close>


lemma update_one_absent: "i \<notin> fst ` set xs \<Longrightarrow> update_one i f xs = xs"
  by (induction xs) auto


lemma length_update_one: "length (update_one i f xs) = length xs"
  by (induction xs) auto

lemma update_one_append_new:
  "i \<notin> fst ` set xs \<Longrightarrow> update_one i f (xs @ [(i, d)]) = xs @ [(i, f d)]"
  by (induction xs) auto

lemma find_one_append_new:
  "i \<notin> fst ` set xs \<Longrightarrow> find_one i (xs @ [(i, d)]) = Some (i, d)"
  by (induction xs) auto

section \<open>The constructors called by ingest\<close>

lemma or0_dflt: "or0 v = dflt 0 v"
  by (simp add: or0_def dflt_def split: option.splits)

lemma LogEntry_validate_kwargs:
  "LogEntry_validate (log_kwargs now rid cid l) =
     (if le_level l \<in> set levels then Inr (log_doc now rid cid l) else Inl [[Fld ''level'']])"
  by (simp add: LogEntry_validate_def LogEntry_errors_def LogEntry_build_def log_kwargs_def
      log_doc_def required_def literal_def dflt_def split: option.splits)

lemma TestCase_validate_kwargs:
  "TestCase_validate (case_kwargs rid sid c) = Inr d \<Longrightarrow> d = case_doc rid sid c"
  by (auto simp: TestCase_validate_def case_kwargs_def case_doc_def dflt_def split: if_splits)


lemma TestSuite_validate_kwargs:
  "TestSuite_validate (suite_kwargs rid k su) = Inr d \<Longrightarrow> d = suite_doc rid k su"
  by (auto simp: TestSuite_validate_def suite_kwargs_def suite_doc_def dflt_def or0_def
      split: if_splits option.splits)


section \<open>The effect of the ingestion loops\<close>

lemma appended_refl: "appended s s [] [] []"
  by (simp add: appended_def)

lemma appended_trans:
  "appended s s1 a b c \<Longrightarrow> appended s1 s2 a' b' c' \<Longrightarrow>
   appended s s2 (a @ a') (b @ b') (c @ c')"
  by (auto simp: appended_def list_all_iff)

lemma appended_log:
  "appended s (snd (create_document_logentry d s)) [] [] [(next_oid s, d)]"
  by (simp add: appended_def create_document_logentry_def)

lemma appended_case:
  "appended s (snd (create_document_testcase d s)) [] [(next_oid s, d)] []"
  by (simp add: appended_def create_document_testcase_def)

lemma appended_suite:
  "appended s (snd (create_document_testsuite d s)) [(next_oid s, d)] [] []"
  by (simp add: appended_def create_document_testsuite_def)

lemma ingest_logs_effect:
  "ingest_logs now rid cid ls s = (r, s') \<Longrightarrow>
   \<exists>nl. appended s s' [] [] nl \<and>
        list_all (\<lambda>(i, l). le_run_id l = rid \<and> le_case_id l = cid) nl \<and>
        (r = Inr () \<longrightarrow> map snd nl = map (log_doc now rid cid) ls)"
proof (induction ls arbitrary: s)
  case Nil
  then show ?case
    by (auto simp: appended_refl intro!: exI [of _ "[]"])
next
  case (Cons l ls)
  show ?case
  proof (cases "le_level l \<in> set levels")
    case False
    with Cons.prems show ?thesis
      by (auto simp: LogEntry_validate_kwargs appended_refl intro!: exI [of _ "[]"])
  next
    case True
    let ?d = "log_doc now rid cid l"
    let ?s1 = "snd (create_document_logentry ?d s)"
    from True Cons.prems have "ingest_logs now rid cid ls ?s1 = (r, s')"
      by (simp add: LogEntry_validate_kwargs)
    from Cons.IH [OF this] obtain nl where
      nl: "appended ?s1 s' [] [] nl"
        "list_all (\<lambda>(i, l). le_run_id l = rid \<and> le_case_id l = cid) nl"
        "r = Inr () \<longrightarrow> map snd nl = map (log_doc now rid cid) ls"
      by blast
    from appended_trans [OF appended_log nl(1)]
    have "appended s s' [] [] ((next_oid s, ?d) # nl)"
      by simp
    moreover have "list_all (\<lambda>(i, l). le_run_id l = rid \<and> le_case_id l = cid) ((next_oid s, ?d) # nl)"
      using nl(2) by (simp add: log_doc_def)
    moreover have "r = Inr () \<longrightarrow> map snd ((next_oid s, ?d) # nl) = map (log_doc now rid cid) (l # ls)"
      using nl(3) by simp
    ultimately show ?thesis
      by blast
  qed
qed

lemma logs_of_cases_Nil: "logs_of_cases now rid [] [] = []"
  by (simp add: logs_of_cases_def)

lemma logs_of_cases_Cons:
  "logs_of_cases now rid ((i, d) # nc) (c # cs) =
     map (log_doc now rid (str_oid i)) (ic_logs c) @ logs_of_cases now rid nc cs"
  by (simp add: logs_of_cases_def)

lemma logs_of_cases_append:
  "length nc1 = length cs1 \<Longrightarrow>
   logs_of_cases now rid (nc1 @ nc2) (cs1 @ cs2) =
     logs_of_cases now rid nc1 cs1 @ logs_of_cases now rid nc2 cs2"
  by (simp add: logs_of_cases_def)

lemma list_all_mono_set:
  "list_all (\<lambda>(i, l). P l \<and> Q l \<in> set A) xs \<Longrightarrow> set A \<subseteq> set B \<Longrightarrow>
   list_all (\<lambda>(i, l). P l \<and> Q l \<in> set B) xs"
  by (auto simp: list_all_iff)

lemma ingest_cases_effect:
  "ingest_cases now rid sid cs s = (r, s') \<Longrightarrow>
   \<exists>nc nl. appended s s' [] nc nl \<and>
        list_all (\<lambda>(i, c). tc_run_id c = rid \<and> tc_suite_id c = sid) nc \<and>
        list_all (\<lambda>(i, l). le_run_id l = rid \<and> le_case_id l \<in> set (map (\<lambda>(i, c). str_oid i) nc)) nl \<and>
        (r = Inr () \<longrightarrow> map snd nc = map (case_doc rid sid) cs \<and>
           map snd nl = logs_of_cases now rid nc cs)"
proof (induction cs arbitrary: s)
  case Nil
  then have "appended s s' [] [] []"
    by (simp add: appended_refl)
  then show ?case
    by (intro exI [of _ "[]"]) (simp add: logs_of_cases_Nil)
next
  case (Cons c cs)
  show ?case
  proof (cases "TestCase_validate (case_kwargs rid sid c)")
    case (Inl e)
    with Cons.prems have "appended s s' [] [] []"
      by (simp add: appended_refl)
    moreover from Inl Cons.prems have "r \<noteq> Inr ()"
      by auto
    ultimately show ?thesis
      by (intro exI [of _ "[]"]) simp
  next
    case (Inr d)
    then have d: "d = case_doc rid sid c"
      by (rule TestCase_validate_kwargs)
    let ?n = "next_oid s"
    let ?s1 = "snd (create_document_testcase d s)"
    obtain r1 s2 where logs: "ingest_logs now rid (str_oid ?n) (ic_logs c) ?s1 = (r1, s2)"
      by (cases "ingest_logs now rid (str_oid ?n) (ic_logs c) ?s1")
    from ingest_logs_effect [OF logs] obtain nl1 where
      nl1: "appended ?s1 s2 [] [] nl1"
        "list_all (\<lambda>(i, l). le_run_id l = rid \<and> le_case_id l = str_oid ?n) nl1"
        "r1 = Inr () \<longrightarrow> map snd nl1 = map (log_doc now rid (str_oid ?n)) (ic_logs c)"
      by blast
    from appended_trans [OF appended_case nl1(1)]
    have a1: "appended s s2 [] [(?n, d)] nl1"
      by simp
    have c1: "list_all (\<lambda>(i, c). tc_run_id c = rid \<and> tc_suite_id c = sid) [(?n, d)]"
      by (simp add: d case_doc_def)
    show ?thesis
    proof (cases r1)
      case (Inl e)
      with Inr logs Cons.prems have res: "r = Inl e" "s' = s2"
        by (simp_all add: create_document_testcase_def Let_def)
      have "list_all (\<lambda>(i, l). le_run_id l = rid \<and>
              le_case_id l \<in> set (map (\<lambda>(i, c). str_oid i) [(?n, d)])) nl1"
        using nl1(2) by (auto simp: list_all_iff)
      with a1 c1 res show ?thesis
        by (intro exI [of _ "[(?n, d)]"] exI [of _ nl1]) simp
    next
      case Inr' : (Inr u)
      with Inr logs Cons.prems have rest: "ingest_cases now rid sid cs s2 = (r, s')"
        by (simp add: create_document_testcase_def Let_def)
      from Cons.IH [OF rest] obtain nc nl where
        ih: "appended s2 s' [] nc nl"
          "list_all (\<lambda>(i, c). tc_run_id c = rid \<and> tc_suite_id c = sid) nc"
          "list_all (\<lambda>(i, l). le_run_id l = rid \<and>
             le_case_id l \<in> set (map (\<lambda>(i, c). str_oid i) nc)) nl"
          "r = Inr () \<longrightarrow> map snd nc = map (case_doc rid sid) cs \<and>
             map snd nl = logs_of_cases now rid nc cs"
        by blast
      from appended_trans [OF a1 ih(1)]
      have a: "appended s s' [] ((?n, d) # nc) (nl1 @ nl)"
        by simp
      have b: "list_all (\<lambda>(i, c). tc_run_id c = rid \<and> tc_suite_id c = sid) ((?n, d) # nc)"
        using c1 ih(2) by simp
      have c: "list_all (\<lambda>(i, l). le_run_id l = rid \<and>
              le_case_id l \<in> set (map (\<lambda>(i, c). str_oid i) ((?n, d) # nc))) (nl1 @ nl)"
        using nl1(2) ih(3) by (auto simp: list_all_iff)
      have e: "r = Inr () \<longrightarrow> map snd ((?n, d) # nc) = map (case_doc rid sid) (c # cs) \<and>
             map snd (nl1 @ nl) = logs_of_cases now rid ((?n, d) # nc) (c # cs)"
        using ih(4) nl1(3) Inr' d by (simp add: logs_of_cases_Cons)
      from a b c e show ?thesis
        by blast
    qed
  qed
qed

lemma payload_cases_Cons: "payload_cases (su # sus) = is_cases su @ payload_cases sus"
  by (simp add: payload_cases_def)

lemma ingest_suites_effect:
  "ingest_suites now rid k sus (t, p, f, sk, b) s = (r, s') \<Longrightarrow>
   \<exists>ns nc nl. appended s s' ns nc nl \<and>
        list_all (\<lambda>(i, su). ts_run_id su = rid) ns \<and>
        list_all (\<lambda>(i, c). tc_run_id c = rid \<and>
           tc_suite_id c \<in> set (map (\<lambda>(i, su). str_oid i) ns)) nc \<and>
        list_all (\<lambda>(i, l). le_run_id l = rid \<and>
           le_case_id l \<in> set (map (\<lambda>(i, c). str_oid i) nc)) nl \<and>
        (\<forall>acc. r = Inr acc \<longrightarrow>
           map snd ns = map (\<lambda>(j, su). suite_doc rid j su) (enumerate k sus) \<and>
           length nc = length (payload_cases sus) \<and>
           map snd nl = logs_of_cases now rid nc (payload_cases sus) \<and>
           acc = (t + sum_list (map (\<lambda>su. dflt 0 (is_total su)) sus),
                  p + sum_list (map (\<lambda>su. dflt 0 (is_passed su)) sus),
                  f + sum_list (map (\<lambda>su. dflt 0 (is_failed su)) sus),
                  sk + sum_list (map (\<lambda>su. dflt 0 (is_skipped su)) sus),
                  b))"
proof (induction sus arbitrary: s k t p f sk b)
  case Nil
  then have "appended s s' [] [] []"
    by (simp add: appended_refl)
  with Nil show ?case
    by (intro exI [of _ "[]"]) (auto simp: logs_of_cases_Nil payload_cases_def)
next
  case (Cons su sus)
  show ?case
  proof (cases "TestSuite_validate (suite_kwargs rid k su)")
    case (Inl e)
    with Cons.prems have "appended s s' [] [] []"
      by (simp add: appended_refl)
    moreover from Inl Cons.prems have "\<forall>acc. r \<noteq> Inr acc"
      by auto
    ultimately show ?thesis
      by (intro exI [of _ "[]"]) simp
  next
    case (Inr d)
    then have d: "d = suite_doc rid k su"
      by (rule TestSuite_validate_kwargs)
    let ?n = "next_oid s"
    let ?s1 = "snd (create_document_testsuite d s)"
    obtain r1 s2 where cases: "ingest_cases now rid (str_oid ?n) (is_cases su) ?s1 = (r1, s2)"
      by (cases "ingest_cases now rid (str_oid ?n) (is_cases su) ?s1")
    from ingest_cases_effect [OF cases] obtain nc1 nl1 where
      e1: "appended ?s1 s2 [] nc1 nl1"
        "list_all (\<lambda>(i, c). tc_run_id c = rid \<and> tc_suite_id c = str_oid ?n) nc1"
        "list_all (\<lambda>(i, l). le_run_id l = rid \<and>
           le_case_id l \<in> set (map (\<lambda>(i, c). str_oid i) nc1)) nl1"
        "r1 = Inr () \<longrightarrow> map snd nc1 = map (case_doc rid (str_oid ?n)) (is_cases su) \<and>
           map snd nl1 = logs_of_cases now rid nc1 (is_cases su)"
      by blast
    from appended_trans [OF appended_suite e1(1)]
    have a1: "appended s s2 [(?n, d)] nc1 nl1"
      by simp
    have su1: "list_all (\<lambda>(i, su). ts_run_id su = rid) [(?n, d)]"
      by (simp add: d suite_doc_def)
    show ?thesis
    proof (cases r1)
      case (Inl e)
      with Inr cases Cons.prems have res: "r = Inl e" "s' = s2"
        by (simp_all add: create_document_testsuite_def Let_def)
      have "list_all (\<lambda>(i, c). tc_run_id c = rid \<and>
              tc_suite_id c \<in> set (map (\<lambda>(i, su). str_oid i) [(?n, d)])) nc1"
        using e1(2) by (auto simp: list_all_iff)
      with a1 su1 e1(3) res show ?thesis
        by (intro exI [of _ "[(?n, d)]"] exI [of _ nc1] exI [of _ nl1]) simp
    next
      case Inr' : (Inr u)
      with Inr cases Cons.prems have rest:
        "ingest_suites now rid (Suc k) sus
           (t + ts_total d, p + ts_passed d, f + ts_failed d, sk + ts_skipped d, b) s2 = (r, s')"
        by (simp add: create_document_testsuite_def Let_def)
      from Cons.IH [OF rest] obtain ns nc nl where
        ih: "appended s2 s' ns nc nl"
          "list_all (\<lambda>(i, su). ts_run_id su = rid) ns"
          "list_all (\<lambda>(i, c). tc_run_id c = rid \<and>
             tc_suite_id c \<in> set (map (\<lambda>(i, su). str_oid i) ns)) nc"
          "list_all (\<lambda>(i, l). le_run_id l = rid \<and>
             le_case_id l \<in> set (map (\<lambda>(i, c). str_oid i) nc)) nl"
          "\<forall>acc. r = Inr acc \<longrightarrow>
             map snd ns = map (\<lambda>(j, su). suite_doc rid j su) (enumerate (Suc k) sus) \<and>
             length nc = length (payload_cases sus) \<and>
             map snd nl = logs_of_cases now rid nc (payload_cases sus) \<and>
             acc = (t + ts_total d + sum_list (map (\<lambda>su. dflt 0 (is_total su)) sus),
                    p + ts_passed d + sum_list (map (\<lambda>su. dflt 0 (is_passed su)) sus),
                    f + ts_failed d + sum_list (map (\<lambda>su. dflt 0 (is_failed su)) sus),
                    sk + ts_skipped d + sum_list (map (\<lambda>su. dflt 0 (is_skipped su)) sus),
                    b)"
        by blast
      from e1(4) Inr' have "map snd nc1 = map (case_doc rid (str_oid ?n)) (is_cases su)"
        by simp
      then have len1: "length nc1 = length (is_cases su)"
        by (rule map_eq_imp_length_eq)
      from appended_trans [OF a1 ih(1)]
      have a: "appended s s' ((?n, d) # ns) (nc1 @ nc) (nl1 @ nl)"
        by simp
      have b1: "list_all (\<lambda>(i, su). ts_run_id su = rid) ((?n, d) # ns)"
        using su1 ih(2) by simp
      have c1: "list_all (\<lambda>(i, c). tc_run_id c = rid \<and>
              tc_suite_id c \<in> set (map (\<lambda>(i, su). str_oid i) ((?n, d) # ns))) (nc1 @ nc)"
        using e1(2) ih(3) by (auto simp: list_all_iff)
      have l1: "list_all (\<lambda>(i, l). le_run_id l = rid \<and>
              le_case_id l \<in> set (map (\<lambda>(i, c). str_oid i) (nc1 @ nc))) (nl1 @ nl)"
        using e1(3) ih(4) by (auto simp: list_all_iff)
      have e: "\<forall>acc. r = Inr acc \<longrightarrow>
           map snd ((?n, d) # ns) = map (\<lambda>(j, su). suite_doc rid j su) (enumerate k (su # sus)) \<and>
           length (nc1 @ nc) = length (payload_cases (su # sus)) \<and>
           map snd (nl1 @ nl) = logs_of_cases now rid (nc1 @ nc) (payload_cases (su # sus)) \<and>
           acc = (t + sum_list (map (\<lambda>su. dflt 0 (is_total su)) (su # sus)),
                  p + sum_list (map (\<lambda>su. dflt 0 (is_passed su)) (su # sus)),
                  f + sum_list (map (\<lambda>su. dflt 0 (is_failed su)) (su # sus)),
                  sk + sum_list (map (\<lambda>su. dflt 0 (is_skipped su)) (su # sus)),
                  b)"
      proof (intro allI impI)
        fix acc
        assume "r = Inr acc"
        with ih(5) have h:
          "map snd ns = map (\<lambda>(j, su). suite_doc rid j su) (enumerate (Suc k) sus)"
          "length nc = length (payload_cases sus)"
          "map snd nl = logs_of_cases now rid nc (payload_cases sus)"
          "acc = (t + ts_total d + sum_list (map (\<lambda>su. dflt 0 (is_total su)) sus),
                    p + ts_passed d + sum_list (map (\<lambda>su. dflt 0 (is_passed su)) sus),
                    f + ts_failed d + sum_list (map (\<lambda>su. dflt 0 (is_failed su)) sus),
                    sk + ts_skipped d + sum_list (map (\<lambda>su. dflt 0 (is_skipped su)) sus),
                    b)"
          by simp_all
        have nl1: "map snd nl1 = logs_of_cases now rid nc1 (is_cases su)"
          using e1(4) Inr' by simp
        show "map snd ((?n, d) # ns) = map (\<lambda>(j, su). suite_doc rid j su) (enumerate k (su # sus)) \<and>
           length (nc1 @ nc) = length (payload_cases (su # sus)) \<and>
           map snd (nl1 @ nl) = logs_of_cases now rid (nc1 @ nc) (payload_cases (su # sus)) \<and>
           acc = (t + sum_list (map (\<lambda>su. dflt 0 (is_total su)) (su # sus)),
                  p + sum_list (map (\<lambda>su. dflt 0 (is_passed su)) (su # sus)),
                  f + sum_list (map (\<lambda>su. dflt 0 (is_failed su)) (su # sus)),
                  sk + sum_list (map (\<lambda>su. dflt 0 (is_skipped su)) (su # sus)),
                  b)"
          using h nl1 len1
          by (simp add: payload_cases_Cons logs_of_cases_append d suite_doc_def)
      qed
      from a b1 c1 l1 e show ?thesis
        by blast
    qed
  qed
qed

section \<open>Ingest as a whole, and what it preserves\<close>

lemma ingest_outcomes:
  "ingest now p s = (r, s') \<Longrightarrow>
   (\<exists>e. TestRun_validate (run_kwargs now p) = Inl e \<and> r = Inl (ValidationError e) \<and> s' = s) \<or>
   (\<exists>d r2 s2. TestRun_validate (run_kwargs now p) = Inr d \<and>
      ingest_suites now (str_oid (next_oid s)) 0 (ir_suites p) (0, 0, 0, 0, 0)
        (snd (create_document_testrun d s)) = (r2, s2) \<and>
      ((\<exists>e. r2 = Inl e \<and> r = Inl e \<and> s' = s2) \<or>
       (\<exists>acc. r2 = Inr acc \<and>
          ((\<exists>e. to_object_id (str_oid (next_oid s)) = Inl e \<and> r = Inl e \<and> s' = s2) \<or>
           (\<exists>i. to_object_id (str_oid (next_oid s)) = Inr i \<and> r = Inr (str_oid (next_oid s)) \<and>
               s' = s2\<lparr>testrun := update_one i (set_aggregates acc) (testrun s2)\<rparr>)))))"
  by (auto simp: ingest_def create_document_testrun_def split: sum.splits prod.splits)

lemma to_object_id_str_oid: "to_object_id (str_oid n) = Inr i \<Longrightarrow> i = n \<and> ObjectId (str_oid n) = Some n"
  by (auto simp: to_object_id_def split: option.splits dest: ObjectId_str_oid)





lemma oids_below_fresh: "oids_below s \<Longrightarrow> next_oid s \<notin> fst ` set (testrun s)"
  by (auto simp: oids_below_def list_all_iff)

lemma ref_integrity_appended:
  "appended s s' ns nc nl \<Longrightarrow> ref_integrity s \<Longrightarrow>
   list_all (\<lambda>(i, su). ts_run_id su \<in> set (run_ids s)) ns \<Longrightarrow>
   list_all (\<lambda>(i, c). tc_suite_id c \<in> set (suite_ids s) \<union> set (map (\<lambda>(i, su). str_oid i) ns)) nc \<Longrightarrow>
   list_all (\<lambda>(i, l). le_case_id l \<in> set (case_ids s) \<union> set (map (\<lambda>(i, c). str_oid i) nc)) nl \<Longrightarrow>
   ref_integrity s'"
  unfolding ref_integrity_def appended_def run_ids_def suite_ids_def case_ids_def
  by (auto simp: list_all_iff)

lemma ref_integrity_create_testrun:
  "ref_integrity s \<Longrightarrow> ref_integrity (snd (create_document_testrun d s))"
  unfolding ref_integrity_def create_document_testrun_def run_ids_def suite_ids_def case_ids_def
  by (auto simp: list_all_iff)

lemma run_ids_update: "run_ids (s\<lparr>testrun := update_one i f (testrun s)\<rparr>) = run_ids s"
proof -
  have "map (\<lambda>(i, r). str_oid i) (update_one i f xs) = map (\<lambda>(i, r). str_oid i) xs"
    for xs :: "(oid \<times> TestRun) list"
    by (induction xs) auto
  then show ?thesis
    by (simp add: run_ids_def)
qed

lemma ref_integrity_update:
  "ref_integrity (s\<lparr>testrun := update_one i f (testrun s)\<rparr>) = ref_integrity s"
  by (simp add: ref_integrity_def run_ids_update suite_ids_def case_ids_def)

lemma length_logs_of_cases:
  "length nc = length cs \<Longrightarrow>
   length (logs_of_cases now rid nc cs) = length (concat (map ic_logs cs))"
proof (induction nc cs rule: list_induct2)
  case Nil
  then show ?case by (simp add: logs_of_cases_Nil)
next
  case (Cons x xs y ys)
  then show ?case
    by (cases x) (simp add: logs_of_cases_Cons)
qed

text \<open>What a successful ingest leaves in the store.\<close>

lemma ingest_success:
  assumes ing: "ingest now p s = (Inr rid, s')"
  shows "\<exists>d ns nc nl.
     rid = str_oid (next_oid s) \<and> ObjectId rid = Some (next_oid s) \<and>
     TestRun_validate (run_kwargs now p) = Inr d \<and>
     testrun s' = update_one (next_oid s) (set_aggregates
        (sum_list (map (\<lambda>su. dflt 0 (is_total su)) (ir_suites p)),
         sum_list (map (\<lambda>su. dflt 0 (is_passed su)) (ir_suites p)),
         sum_list (map (\<lambda>su. dflt 0 (is_failed su)) (ir_suites p)),
         sum_list (map (\<lambda>su. dflt 0 (is_skipped su)) (ir_suites p)),
         0)) (testrun s @ [(next_oid s, d)]) \<and>
     testsuite s' = testsuite s @ ns \<and>
     testcase s' = testcase s @ nc \<and>
     logentry s' = logentry s @ nl \<and>
     next_oid s' = next_oid s + payload_size p \<and>
     map snd ns = map (\<lambda>(j, su). suite_doc rid j su) (enumerate 0 (ir_suites p)) \<and>
     length nc = length (payload_cases (ir_suites p)) \<and>
     map snd nl = logs_of_cases now rid nc (payload_cases (ir_suites p)) \<and>
     list_all (\<lambda>(i, su). next_oid s < i \<and> i < next_oid s') ns \<and>
     list_all (\<lambda>(i, c). next_oid s < i \<and> i < next_oid s') nc \<and>
     list_all (\<lambda>(i, l). next_oid s < i \<and> i < next_oid s') nl \<and>
     list_all (\<lambda>(i, c). tc_run_id c = rid \<and>
        tc_suite_id c \<in> set (map (\<lambda>(i, su). str_oid i) ns)) nc \<and>
     list_all (\<lambda>(i, l). le_run_id l = rid \<and>
        le_case_id l \<in> set (map (\<lambda>(i, c). str_oid i) nc)) nl"
proof -
  let ?n = "next_oid s"
  from ingest_outcomes [OF ing] obtain d acc s2 i where
    d: "TestRun_validate (run_kwargs now p) = Inr d"
    and su: "ingest_suites now (str_oid ?n) 0 (ir_suites p) (0, 0, 0, 0, 0)
        (snd (create_document_testrun d s)) = (Inr acc, s2)"
    and oid: "to_object_id (str_oid ?n) = Inr i"
    and rid: "rid = str_oid ?n"
    and s': "s' = s2\<lparr>testrun := update_one i (set_aggregates acc) (testrun s2)\<rparr>"
    by auto
  let ?s1 = "snd (create_document_testrun d s)"
  from to_object_id_str_oid [OF oid] have i: "i = ?n" and parse: "ObjectId (str_oid ?n) = Some ?n"
    by simp_all
  from ingest_suites_effect [OF su] obtain ns nc nl where
    e: "appended ?s1 s2 ns nc nl"
      "list_all (\<lambda>(i, c). tc_run_id c = str_oid ?n \<and>
           tc_suite_id c \<in> set (map (\<lambda>(i, su). str_oid i) ns)) nc"
      "list_all (\<lambda>(i, l). le_run_id l = str_oid ?n \<and>
           le_case_id l \<in> set (map (\<lambda>(i, c). str_oid i) nc)) nl"
      "map snd ns = map (\<lambda>(j, su). suite_doc (str_oid ?n) j su) (enumerate 0 (ir_suites p))"
      "length nc = length (payload_cases (ir_suites p))"
      "map snd nl = logs_of_cases now (str_oid ?n) nc (payload_cases (ir_suites p))"
      "acc = (0 + sum_list (map (\<lambda>su. dflt 0 (is_total su)) (ir_suites p)),
              0 + sum_list (map (\<lambda>su. dflt 0 (is_passed su)) (ir_suites p)),
              0 + sum_list (map (\<lambda>su. dflt 0 (is_failed su)) (ir_suites p)),
              0 + sum_list (map (\<lambda>su. dflt 0 (is_skipped su)) (ir_suites p)),
              0)"
    by blast
  have s1: "testrun ?s1 = testrun s @ [(?n, d)]" "testsuite ?s1 = testsuite s"
    "testcase ?s1 = testcase s" "logentry ?s1 = logentry s" "next_oid ?s1 = Suc ?n"
    by (simp_all add: create_document_testrun_def)
  from e(1) s1 have s2: "testrun s2 = testrun s @ [(?n, d)]" "testsuite s2 = testsuite s @ ns"
    "testcase s2 = testcase s @ nc" "logentry s2 = logentry s @ nl"
    "next_oid s2 = Suc ?n + length ns + length nc + length nl"
    by (simp_all add: appended_def)
  from e(1) s1 s2 have rng:
    "list_all (\<lambda>(i, su). ?n < i \<and> i < next_oid s2) ns"
    "list_all (\<lambda>(i, c). ?n < i \<and> i < next_oid s2) nc"
    "list_all (\<lambda>(i, l). ?n < i \<and> i < next_oid s2) nl"
    by (auto simp: appended_def list_all_iff)
  have "length ns = length (ir_suites p)"
    using map_eq_imp_length_eq [OF e(4)] by simp
  moreover have "length (map snd nl) = length (payload_logs (ir_suites p))"
    unfolding e(6) using length_logs_of_cases [OF e(5)]
    by (simp add: payload_logs_def)
  then have "length nl = length (payload_logs (ir_suites p))"
    by simp
  ultimately have size: "next_oid s2 = ?n + payload_size p"
    using s2(5) e(5) by (simp add: payload_size_def)
  have run: "testrun s' = update_one ?n (set_aggregates acc) (testrun s @ [(?n, d)])"
    using s' s2(1) i by simp
  have rest: "testsuite s' = testsuite s @ ns" "testcase s' = testcase s @ nc"
    "logentry s' = logentry s @ nl" "next_oid s' = next_oid s2"
    using s' s2 by simp_all
  show ?thesis
    using rid parse d run rest size e(2-6) rng e(7)
    by (intro exI [of _ d] exI [of _ ns] exI [of _ nc] exI [of _ nl]) simp
qed

section \<open>Payloads that ingest accepts\<close>






section \<open>The identifiers supplied on a payload's logs\<close>

lemma log_kwargs_scrub: "log_kwargs now rid cid (scrub_log a b l) = log_kwargs now rid cid l"
  by (simp add: log_kwargs_def scrub_log_def)

lemma ingest_logs_scrub:
  "ingest_logs now rid cid (map (scrub_log a b) ls) s = ingest_logs now rid cid ls s"
  by (induction ls arbitrary: s) (simp_all add: log_kwargs_scrub split: sum.splits)

lemma case_kwargs_scrub: "case_kwargs rid sid (scrub_case a b c) = case_kwargs rid sid c"
  by (simp add: case_kwargs_def scrub_case_def)

lemma ingest_cases_scrub:
  "ingest_cases now rid sid (map (scrub_case a b) cs) s = ingest_cases now rid sid cs s"
proof (induction cs arbitrary: s)
  case Nil
  then show ?case by simp
next
  case (Cons c cs)
  have "ic_logs (scrub_case a b c) = map (scrub_log a b) (ic_logs c)"
    by (simp add: scrub_case_def)
  with Cons show ?case
    by (simp add: case_kwargs_scrub ingest_logs_scrub split: sum.splits prod.splits)
qed

lemma suite_kwargs_scrub: "suite_kwargs rid k (scrub_suite a b su) = suite_kwargs rid k su"
  by (simp add: suite_kwargs_def scrub_suite_def)

lemma ingest_suites_scrub:
  "ingest_suites now rid k (map (scrub_suite a b) sus) acc s = ingest_suites now rid k sus acc s"
proof (induction sus arbitrary: s k acc)
  case Nil
  then show ?case by simp
next
  case (Cons su sus)
  obtain t p f sk bl where acc: "acc = (t, p, f, sk, bl)"
    by (cases acc) auto
  have "is_cases (scrub_suite a b su) = map (scrub_case a b) (is_cases su)"
    by (simp add: scrub_suite_def)
  with Cons acc show ?case
    by (simp add: suite_kwargs_scrub ingest_cases_scrub split: sum.splits prod.splits)
qed

lemma ingest_scrub: "ingest now (scrub a b p) s = ingest now p s"
proof -
  have "run_kwargs now (scrub a b p) = run_kwargs now p"
    by (simp add: run_kwargs_def scrub_def)
  moreover have "ir_suites (scrub a b p) = map (scrub_suite a b) (ir_suites p)"
    by (simp add: scrub_def)
  ultimately show ?thesis
    by (simp add: ingest_def ingest_suites_scrub split: sum.splits prod.splits)
qed

section \<open>Invariants of ingest\<close>


lemma ingest_suites_ref_integrity:
  assumes su: "ingest_suites now rid k sus (t, p, f, sk, b) s = (r, s')"
    and rid: "rid \<in> set (run_ids s)" and inv: "ref_integrity s"
  shows "ref_integrity s'"
proof -
  from ingest_suites_effect [OF su] obtain ns nc nl where
    e: "appended s s' ns nc nl"
      "list_all (\<lambda>(i, su). ts_run_id su = rid) ns"
      "list_all (\<lambda>(i, c). tc_run_id c = rid \<and>
           tc_suite_id c \<in> set (map (\<lambda>(i, su). str_oid i) ns)) nc"
      "list_all (\<lambda>(i, l). le_run_id l = rid \<and>
           le_case_id l \<in> set (map (\<lambda>(i, c). str_oid i) nc)) nl"
    by blast
  have 1: "list_all (\<lambda>(i, su). ts_run_id su \<in> set (run_ids s)) ns"
    using e(2) rid by (auto simp: list_all_iff)
  have 2: "list_all (\<lambda>(i, c). tc_suite_id c \<in> set (suite_ids s) \<union>
      set (map (\<lambda>(i, su). str_oid i) ns)) nc"
    using e(3) by (auto simp: list_all_iff)
  have 3: "list_all (\<lambda>(i, l). le_case_id l \<in> set (case_ids s) \<union>
      set (map (\<lambda>(i, c). str_oid i) nc)) nl"
    using e(4) by (auto simp: list_all_iff)
  from ref_integrity_appended [OF e(1) inv 1 2 3] show ?thesis .
qed

lemma ingest_ref_integrity: "ref_integrity s \<Longrightarrow> ingest now p s = (r, s') \<Longrightarrow> ref_integrity s'"
proof -
  assume inv: "ref_integrity s" and ing: "ingest now p s = (r, s')"
  have known: "str_oid (next_oid s) \<in> set (run_ids (snd (create_document_testrun d s)))" for d
    by (simp add: run_ids_def create_document_testrun_def)
  note inv1 = ref_integrity_create_testrun [OF inv]
  from ingest_outcomes [OF ing] show ?thesis
  proof (elim disjE exE conjE)
    fix e
    assume "s' = s"
    with inv show ?thesis by simp
  next
    fix d r2 s2 e
    assume su: "ingest_suites now (str_oid (next_oid s)) 0 (ir_suites p) (0, 0, 0, 0, 0)
        (snd (create_document_testrun d s)) = (r2, s2)" and "s' = s2"
    with ingest_suites_ref_integrity [OF su known inv1] show ?thesis
      by simp
  next
    fix d r2 s2 acc e
    assume su: "ingest_suites now (str_oid (next_oid s)) 0 (ir_suites p) (0, 0, 0, 0, 0)
        (snd (create_document_testrun d s)) = (r2, s2)" and "s' = s2"
    with ingest_suites_ref_integrity [OF su known inv1] show ?thesis
      by simp
  next
    fix d r2 s2 acc i
    assume su: "ingest_suites now (str_oid (next_oid s)) 0 (ir_suites p) (0, 0, 0, 0, 0)
        (snd (create_document_testrun d s)) = (r2, s2)"
      and s': "s' = s2\<lparr>testrun := update_one i (set_aggregates acc) (testrun s2)\<rparr>"
    from ingest_suites_ref_integrity [OF su known inv1] s' show ?thesis
      by (simp add: ref_integrity_update)
  qed
qed

lemma apply_op_ref_integrity:
  "ref_integrity s \<Longrightarrow> parent_known x s \<Longrightarrow> ref_integrity (apply_op x s)"
proof (cases x)
  case (CreateRun now run)
  assume "ref_integrity s"
  then show ?thesis
    unfolding CreateRun by (simp add: create_run_def ref_integrity_create_testrun Let_def split: prod.splits)
       (auto simp: create_document_testrun_def ref_integrity_def run_ids_def suite_ids_def case_ids_def list_all_iff)
next
  case (CreateSuite run_id suite)
  assume "ref_integrity s" "parent_known x s"
  then show ?thesis
    unfolding CreateSuite
    by (auto simp: create_suite_def create_document_testsuite_def ref_integrity_def
        run_ids_def suite_ids_def case_ids_def list_all_iff)
next
  case (CreateCase suite_id c)
  assume "ref_integrity s" "parent_known x s"
  then show ?thesis
    unfolding CreateCase
    by (auto simp: create_case_def create_document_testcase_def ref_integrity_def
        run_ids_def suite_ids_def case_ids_def list_all_iff)
next
  case (AddLog now case_id l)
  assume "ref_integrity s" "parent_known x s"
  then show ?thesis
    unfolding AddLog
    by (auto simp: add_log_def create_document_logentry_def ref_integrity_def
        run_ids_def suite_ids_def case_ids_def list_all_iff)
next
  case (Ingest now payload)
  assume "ref_integrity s"
  then show ?thesis
    unfolding Ingest using ingest_ref_integrity [of s now payload]
    by (cases "ingest now payload s") simp
qed

section \<open>Sorting\<close>




section \<open>The scenario payload\<close>



lemma str_oid_small:
  "str_oid 0 = ''000000000000000000000000''"
  "str_oid (Suc 0) = ''000000000000000000000001''"
  "str_oid 2 = ''000000000000000000000002''"
  "str_oid (Suc (Suc 0)) = ''000000000000000000000002''"
  by code_simp+

lemma ingest_nightly:
  "ingest now (IngestRun_build (nightly_body (Some a) (Some b))) empty_store =
     (Inr zero_id, nightly_store now)"
  by (simp add: ingest_def IngestRun_build_def IngestSuite_build_def IngestCase_build_def
      LogEntry_build_def nightly_body_def nightly_suite_def nightly_case_def nightly_log_def
      run_kwargs_def suite_kwargs_def case_kwargs_def log_kwargs_def
      TestRun_validate_def TestRun_errors_def TestSuite_validate_def TestSuite_errors_def
      TestCase_validate_def TestCase_errors_def LogEntry_validate_def LogEntry_errors_def
      required_def literal_def ge0_def dflt_def or0_def statuses_def levels_def
      create_document_testrun_def create_document_testsuite_def create_document_testcase_def
      create_document_logentry_def empty_store_def to_object_id_def str_oid_small
      ObjectId_zeros set_aggregates_def nightly_store_def zero_id_def)



section \<open>Retrieval after ingest\<close>




section \<open>Validation\<close>

lemma TestRun_rejects_negative_total:
  "trr_total r = Some v \<Longrightarrow> v < 0 \<Longrightarrow>
   \<exists>e. TestRun_validate r = Inl e \<and> [Fld ''total''] \<in> set e"
  by (simp add: TestRun_validate_def TestRun_errors_def ge0_def)

text \<open>
  C3. Validation is claimed to reject every raw record with a negative numeric field,
  in particular a Suite with a negative counter. \<open>TestRun\<close> declares \<^verbatim>\<open>ge=0\<close> on its
  counters and rejects them (lemma \<open>TestRun_rejects_negative_total\<close>), but \<open>TestSuite\<close>
  declares its counters as plain integers: a raw Suite with \<open>total = -1\<close> is accepted and
  normalized with that total.
\<close>

theorem TestSuite_accepts_negative_total:
  "TestSuite_validate suite_negative_total =
     Inr \<lparr>ts_run_id = zero_id, ts_name = ''Auth'', ts_status = ''running'',
          ts_duration_ms = None, ts_total = - 1, ts_passed = 0, ts_failed = 0,
          ts_skipped = 0, ts_order = None\<rparr>"
  by (simp add: TestSuite_validate_def TestSuite_errors_def suite_negative_total_def
      required_def literal_def ge0_def dflt_def)

section \<open>Lookups and parent checks\<close>

text \<open>
  C4. \<^verbatim>\<open>finish_run\<close> on a well-formed identifier of no stored run is claimed to fail with
  NotFound. It updates nothing, finds nothing and returns the serialization of nothing:
  a successful answer with an empty body. The store is unchanged.
\<close>

theorem finish_run_unknown_succeeds:
  "finish_run now zero_id empty_finish empty_store = (Inr None, empty_store)"
  by (simp add: finish_run_def to_object_id_def zero_id_def ObjectId_zeros empty_store_def
      serialize_doc_def)

text \<open>
  C7. \<^verbatim>\<open>create_suite\<close>, \<^verbatim>\<open>create_case\<close> and \<^verbatim>\<open>add_log\<close>, called with a child whose declared
  parent id differs from the id of the path, fail with the mismatch error (status 400)
  and leave the store as it was.
\<close>

theorem mismatch_rejected:
  "(ts_run_id suite \<noteq> run_id \<longrightarrow>
      create_suite run_id suite s = (Inl (HTTPException 400 ''run_id mismatch''), s)) \<and>
   (tc_suite_id c \<noteq> suite_id \<longrightarrow>
      create_case suite_id c s = (Inl (HTTPException 400 ''suite_id mismatch''), s)) \<and>
   (le_case_id l \<noteq> case_id \<longrightarrow>
      add_log now case_id l s = (Inl (HTTPException 400 ''case_id mismatch''), s))"
  by (simp add: create_suite_def create_case_def add_log_def)

theorem mismatch_rejected_witness:
  "ts_run_id stray_suite \<noteq> ''other'' \<and>
   create_suite ''other'' stray_suite empty_store =
     (Inl (HTTPException 400 ''run_id mismatch''), empty_store) \<and>
   tc_suite_id stray_case \<noteq> ''other'' \<and>
   create_case ''other'' stray_case empty_store =
     (Inl (HTTPException 400 ''suite_id mismatch''), empty_store) \<and>
   le_case_id stray_log \<noteq> ''other'' \<and>
   add_log 0 ''other'' stray_log empty_store =
     (Inl (HTTPException 400 ''case_id mismatch''), empty_store)"
  using mismatch_rejected [where suite = stray_suite and run_id = "''other''"
      and c = stray_case and suite_id = "''other''" and l = stray_log
      and case_id = "''other''" and s = empty_store and now = 0]
  by (simp add: stray_suite_def stray_case_def stray_log_def zero_id_def)



section \<open>Ingestion\<close>

text \<open>
  C1. After an accepted ingest, the stored run found under the returned identifier has
  total, passed, failed and skipped equal to the sums of the payload suites' fields, an
  absent field counting as 0, and blocked equal to 0. The store is one whose identifiers
  were all generated before the next one (\<open>oids_below\<close>), so that the update by
  identifier reaches the run just inserted.
\<close>

theorem ingest_run_aggregates:
  assumes "oids_below s" and "ingest now payload s = (Inr run_id, s')"
  shows "\<exists>i run. ObjectId run_id = Some i \<and> find_one i (testrun s') = Some (i, run) \<and>
     tr_total run = sum_list (map (\<lambda>su. dflt 0 (is_total su)) (ir_suites payload)) \<and>
     tr_passed run = sum_list (map (\<lambda>su. dflt 0 (is_passed su)) (ir_suites payload)) \<and>
     tr_failed run = sum_list (map (\<lambda>su. dflt 0 (is_failed su)) (ir_suites payload)) \<and>
     tr_skipped run = sum_list (map (\<lambda>su. dflt 0 (is_skipped su)) (ir_suites payload)) \<and>
     tr_blocked run = 0"
proof -
  let ?n = "next_oid s"
  let ?acc = "(sum_list (map (\<lambda>su. dflt 0 (is_total su)) (ir_suites payload)),
         sum_list (map (\<lambda>su. dflt 0 (is_passed su)) (ir_suites payload)),
         sum_list (map (\<lambda>su. dflt 0 (is_failed su)) (ir_suites payload)),
         sum_list (map (\<lambda>su. dflt 0 (is_skipped su)) (ir_suites payload)),
         0 :: int)"
  from ingest_success [OF assms(2)] obtain d where
    parse: "ObjectId run_id = Some ?n"
    and run: "testrun s' = update_one ?n (set_aggregates ?acc) (testrun s @ [(?n, d)])"
    by blast
  from oids_below_fresh [OF assms(1)] run
  have "find_one ?n (testrun s') = Some (?n, set_aggregates ?acc d)"
    by (simp add: update_one_append_new find_one_append_new)
  with parse show ?thesis
    by (simp add: set_aggregates_def)
qed

theorem ingest_run_aggregates_witness:
  "oids_below empty_store \<and>
   ingest 0 nightly_payload empty_store = (Inr zero_id, nightly_store 0) \<and>
   (\<exists>i run. ObjectId zero_id = Some i \<and>
      find_one i (testrun (nightly_store 0)) = Some (i, run) \<and>
      tr_total run = 2 \<and> tr_passed run = 2 \<and> tr_failed run = 0 \<and> tr_skipped run = 0 \<and>
      tr_blocked run = 0)"
proof -
  have h1: "oids_below empty_store"
    by (simp add: oids_below_def empty_store_def)
  have h2: "ingest 0 nightly_payload empty_store = (Inr zero_id, nightly_store 0)"
    by (simp add: nightly_payload_def ingest_nightly)
  have "ir_suites nightly_payload = [IngestSuite_build (nightly_suite (Some ''r'') (Some ''c''))]"
    by (simp add: nightly_payload_def IngestRun_build_def nightly_body_def dflt_def)
  with ingest_run_aggregates [OF h1 h2] h1 h2 show ?thesis
    by (simp add: IngestSuite_build_def nightly_suite_def dflt_def)
qed



text \<open>
  C10. After an accepted ingest, the logs appended to the store are those of the payload
  cases, case after case and in order, each with \<open>run_id\<close> the returned run identifier
  and \<open>case_id\<close> the identifier of the stored case at the position of its payload case
  (\<open>logs_of_cases\<close>). The \<open>run_id\<close> and \<open>case_id\<close> given on the payload's logs are
  not used: replacing them by any other strings (\<open>scrub\<close>) changes nothing. The log
  schema nonetheless rejects a log on which one of them is missing.
\<close>

theorem ingest_log_parent_ids:
  assumes "ingest now payload s = (Inr run_id, s')"
  shows "(\<exists>nc nl. testcase s' = testcase s @ nc \<and> logentry s' = logentry s @ nl \<and>
       length nc = length (payload_cases (ir_suites payload)) \<and>
       map snd nl = logs_of_cases now run_id nc (payload_cases (ir_suites payload)) \<and>
       list_all (\<lambda>(i, l). le_run_id l = run_id \<and>
         le_case_id l \<in> set (map (\<lambda>(i, c). str_oid i) nc)) nl) \<and>
     ingest now (scrub a b payload) s = ingest now payload s \<and>
     (ler_run_id raw = None \<or> ler_case_id raw = None \<longrightarrow>
        (\<exists>e. LogEntry_validate raw = Inl e))"
proof -
  from ingest_success [OF assms] have
    "\<exists>nc nl. testcase s' = testcase s @ nc \<and> logentry s' = logentry s @ nl \<and>
       length nc = length (payload_cases (ir_suites payload)) \<and>
       map snd nl = logs_of_cases now run_id nc (payload_cases (ir_suites payload)) \<and>
       list_all (\<lambda>(i, l). le_run_id l = run_id \<and>
         le_case_id l \<in> set (map (\<lambda>(i, c). str_oid i) nc)) nl"
    by blast
  moreover have "ler_run_id raw = None \<or> ler_case_id raw = None \<longrightarrow>
        (\<exists>e. LogEntry_validate raw = Inl e)"
    by (auto simp: LogEntry_validate_def LogEntry_errors_def required_def)
  ultimately show ?thesis
    by (simp add: ingest_scrub)
qed

theorem ingest_log_parent_ids_witness:
  "ingest 0 nightly_payload empty_store = (Inr zero_id, nightly_store 0) \<and>
   ler_run_id (nightly_log None None ''start'') = None \<and>
   (\<exists>nc nl. testcase (nightly_store 0) = testcase empty_store @ nc \<and>
       logentry (nightly_store 0) = logentry empty_store @ nl \<and>
       length nc = length (payload_cases (ir_suites nightly_payload)) \<and>
       map snd nl = logs_of_cases 0 zero_id nc (payload_cases (ir_suites nightly_payload)) \<and>
       list_all (\<lambda>(i, l). le_run_id l = zero_id \<and>
         le_case_id l \<in> set (map (\<lambda>(i, c). str_oid i) nc)) nl) \<and>
   ingest 0 (scrub ''x'' ''y'' nightly_payload) empty_store =
     ingest 0 nightly_payload empty_store \<and>
   (\<exists>e. LogEntry_validate (nightly_log None None ''start'') = Inl e)"
proof -
  have h: "ingest 0 nightly_payload empty_store = (Inr zero_id, nightly_store 0)"
    by (simp add: nightly_payload_def ingest_nightly)
  have r: "ler_run_id (nightly_log None None ''start'') = None"
    by (simp add: nightly_log_def)
  from ingest_log_parent_ids [OF h, where a = "''x''" and b = "''y''"
      and raw = "nightly_log None None ''start''"] h r
  show ?thesis
    by simp
qed

section \<open>Retrieval\<close>



section \<open>Referential integrity\<close>

text \<open>
  C5. Referential integrity is claimed after every sequence of operations. It fails:
  \<^verbatim>\<open>create_suite\<close> compares the suite's \<open>run_id\<close> with the id of the path and never
  looks the run up, so on the empty store it stores a suite whose run does not exist.
\<close>

theorem dangling_suite_accepted:
  "\<not> ref_integrity (run_ops [CreateSuite zero_id stray_suite] empty_store)"
  by (simp add: create_suite_def create_document_testsuite_def stray_suite_def
      empty_store_def ref_integrity_def run_ids_def)

text \<open>
  C5, as amended. Referential integrity is kept by every sequence of operations in which
  each \<^verbatim>\<open>create_suite\<close>, \<^verbatim>\<open>create_case\<close> and \<^verbatim>\<open>add_log\<close> names a stored parent in
  its path (\<open>parents_known\<close>); \<^verbatim>\<open>create_run\<close> and \<^verbatim>\<open>ingest\<close> keep it always, also
  when \<^verbatim>\<open>ingest\<close> stops at a failure and leaves what it had written.
\<close>

theorem ops_keep_ref_integrity:
  "ref_integrity s \<Longrightarrow> parents_known ops s \<Longrightarrow> ref_integrity (run_ops ops s)"
proof (induction ops arbitrary: s)
  case Nil
  then show ?case by simp
next
  case (Cons x xs)
  from Cons.prems have "ref_integrity (apply_op x s)"
    by (simp add: apply_op_ref_integrity)
  with Cons show ?case
    by simp
qed

theorem ops_keep_ref_integrity_witness:
  "ref_integrity empty_store \<and>
   parents_known [CreateRun 0 plain_run, CreateSuite zero_id stray_suite] empty_store \<and>
   ref_integrity (run_ops [CreateRun 0 plain_run, CreateSuite zero_id stray_suite] empty_store)"
proof -
  have h1: "ref_integrity empty_store"
    by (simp add: ref_integrity_def empty_store_def)
  have h2: "parents_known [CreateRun 0 plain_run, CreateSuite zero_id stray_suite] empty_store"
    by (simp add: create_run_def create_document_testrun_def empty_store_def run_ids_def
        str_oid_small zero_id_def)
  from ops_keep_ref_integrity [OF h1 h2] h1 h2 show ?thesis
    by simp
qed

section \<open>The scenario\<close>



end
